theory Spec2Isabelle
  imports Main "HOL-Library.Multiset"
begin

section \<open>Data model\<close>

text \<open>
  The patcher of MechanicalTurkeyz (the most complete variant of the source, the one
  with \<^verbatim>\<open>importMemories\<close> and both keyword types). Its \<^verbatim>\<open>enum Answer\<close>
  is a datatype; \<^verbatim>\<open>type Answered = Answer.Yes | Answer.No | undefined\<close> is an
  optional answer, \<open>None\<close> standing for \<^verbatim>\<open>undefined\<close>.
\<close>

datatype Answer = Yes | No | MaybeYes | MaybeNo

type_synonym Answered = "Answer option"

text \<open>
  \<^verbatim>\<open>interface Memory { filenames: string[]; keywords: {[keyword]: Answer | undefined} }\<close>
  and \<^verbatim>\<open>interface Memories { [filehash]: Memory | undefined }\<close>. The filenames are
  the array the code keeps (order and repetitions as stored); the two objects are maps.
\<close>

record Memory =
  filenames :: "string list"
  mkeywords :: "string \<rightharpoonup> Answer"

type_synonym Memories = "string \<rightharpoonup> Memory"

datatype KeywordType = Inclusive | Exclusive

type_synonym BodySlot = string

record KeywordInfo =
  kid :: string
  description :: string
  ktype :: KeywordType
  relevantSlots :: "BodySlot list"
  irrelevantSlots :: "BodySlot list"
  skipSlots :: "BodySlot list"

text \<open>The one entry of the source's table \<^verbatim>\<open>keywords\<close>.\<close>

definition SOS_Revealing :: KeywordInfo where
  "SOS_Revealing =
     \<lparr>kid = ''SOS_Revealing'', description = ''SoS revealing keyword'', ktype = Exclusive,
      relevantSlots = [''32 - Body''],
      irrelevantSlots = [''30 - Head'', ''31 - Hair'', ''33 - Hands'', ''34 - Forearms'',
        ''41 - LongHair'', ''42 - Circlet'', ''43 - Ears''],
      skipSlots = [''52 - Unnamed'']\<rparr>"

text \<open>
  An ARMA of the record being patched, as \<^verbatim>\<open>patch\<close> reads it: the value of its
  model path (the empty string when it has none) and the enabled first person flags of
  its body template.
\<close>

record Arma =
  model :: string
  flags :: "BodySlot list"

text \<open>The buttons of the question dialog, \<^verbatim>\<open>enum Choice\<close>.\<close>

datatype Choice = ChoiceYes | ChoiceMaybeYes | ChoiceMaybeNo | ChoiceNo | ChoiceCancel

text \<open>
  What \<^verbatim>\<open>patch\<close> throws: \<^verbatim>\<open>new Error('Cancelled by user')\<close>, and the
  \<^verbatim>\<open>TypeError\<close> of destructuring \<^verbatim>\<open>keywords[keyword]\<close> for a keyword that
  the table does not hold.
\<close>

datatype error = Cancelled | TypeError

text \<open>
  How a call of \<^verbatim>\<open>patch\<close> ends: one of its four \<^verbatim>\<open>return\<close>s (no nifs; a nif
  could not be hashed, which is caught and logged; nothing to ask; the end of the
  function, after \<^verbatim>\<open>saveMemories\<close>), or an exception.
\<close>

datatype Outcome = NothingToDo | NifError | NothingToAsk | Saved | Thrown error

text \<open>
  The state \<^verbatim>\<open>patch\<close> acts on: \<^verbatim>\<open>locals.taggednifs\<close>, the keywords it adds to the
  record with \<^verbatim>\<open>xelib.AddKeyword\<close> (in call order), and the contents of the memory
  file \<^verbatim>\<open>MechanicalTurkeyz.json\<close>. Log lines and the viewer process are not part of it.
\<close>

record State =
  taggednifs :: Memories
  added :: "string list"
  memoryFile :: Memories

record Settings =
  redoMaybes :: bool
  dir :: string
  keywordInfos :: "string \<rightharpoonup> KeywordInfo"

section \<open>Memory store\<close>

text \<open>\<^verbatim>\<open>if (filenames.indexOf(nif) < 0) filenames.push(nif)\<close>\<close>

definition pushNew :: "'a list \<Rightarrow> 'a \<Rightarrow> 'a list" where
  "pushNew xs x = (if x \<in> set xs then xs else xs @ [x])"

text \<open>\<^verbatim>\<open>[...new Set(xs)]\<close>: a Set keeps the first occurrence of each element, in order.\<close>

definition newSet :: "'a list \<Rightarrow> 'a list" where
  "newSet xs = foldl pushNew [] xs"

definition addAnswer :: "Memories \<Rightarrow> string \<Rightarrow> string \<Rightarrow> Answer \<Rightarrow> Memories" where
  "addAnswer mem keyword hash answer =
     (case mem hash of
        None \<Rightarrow> mem(hash \<mapsto> \<lparr>filenames = [], mkeywords = Map.empty(keyword \<mapsto> answer)\<rparr>)
      | Some m \<Rightarrow>
          mem(hash \<mapsto> \<lparr>filenames = filenames m, mkeywords = (mkeywords m)(keyword \<mapsto> answer)\<rparr>))"

definition addName :: "Memories \<Rightarrow> string \<Rightarrow> string \<Rightarrow> Memories" where
  "addName mem hash nif =
     (case mem hash of
        None \<Rightarrow> mem(hash \<mapsto> \<lparr>filenames = pushNew [] nif, mkeywords = Map.empty\<rparr>)
      | Some m \<Rightarrow> mem(hash \<mapsto> \<lparr>filenames = pushNew (filenames m) nif, mkeywords = mkeywords m\<rparr>))"

text \<open>\<^verbatim>\<open>taggednifs[hash]?.keywords[keyword]\<close>\<close>

definition remembered :: "Memories \<Rightarrow> string \<Rightarrow> string \<Rightarrow> Answer option" where
  "remembered mem hash keyword = (case mem hash of None \<Rightarrow> None | Some m \<Rightarrow> mkeywords m keyword)"

text \<open>\<^verbatim>\<open>saveMemories(taggednifs)\<close> overwrites the memory file with the whole mapping.\<close>

definition saveMemories :: "State \<Rightarrow> State" where
  "saveMemories st = st\<lparr>memoryFile := taggednifs st\<rparr>"

subsection \<open>importMemories\<close>

text \<open>
  The object built for a hash both stores know: the union of the filenames through a
  Set, and \<^verbatim>\<open>Object.assign(keywords, memory.keywords)\<close>, where the local answers
  overwrite the imported ones.
\<close>

definition mergeMemory :: "Memory \<Rightarrow> Memory \<Rightarrow> Memory" where
  "mergeMemory memory new =
     \<lparr>filenames = newSet (filenames memory @ filenames new),
      mkeywords = mkeywords new ++ mkeywords memory\<rparr>"

text \<open>One turn of \<^verbatim>\<open>for (const hash in newMemories)\<close>.\<close>

definition mergeStep :: "Memories \<Rightarrow> Memories \<Rightarrow> string \<Rightarrow> Memories" where
  "mergeStep newMemories memories hash =
     (case newMemories hash of
        None \<Rightarrow> memories
      | Some new \<Rightarrow>
          (case memories hash of
             None \<Rightarrow> memories(hash \<mapsto> new)
           | Some memory \<Rightarrow> memories(hash \<mapsto> mergeMemory memory new)))"

text \<open>
  The loop, over the keys of \<^verbatim>\<open>newMemories\<close> in the order \<^verbatim>\<open>for ... in\<close> gives
  them (\<open>hashes\<close>: each key of the object once).
\<close>

definition mergeMemories :: "Memories \<Rightarrow> Memories \<Rightarrow> string list \<Rightarrow> Memories" where
  "mergeMemories memories newMemories hashes = foldl (mergeStep newMemories) memories hashes"

text \<open>
  \<^verbatim>\<open>importMemories\<close>: no file selected, nothing happens; otherwise the memory file is
  loaded, merged with the selected file's contents and saved. The mapping the patcher
  holds in \<^verbatim>\<open>locals.taggednifs\<close> is not touched.
\<close>

definition importMemories :: "(Memories \<times> string list) option \<Rightarrow> State \<Rightarrow> State" where
  "importMemories selected st =
     (case selected of
        None \<Rightarrow> st
      | Some (newMemories, hashes) \<Rightarrow>
          st\<lparr>memoryFile := mergeMemories (memoryFile st) newMemories hashes\<rparr>)"


section \<open>The patch of one record\<close>

subsection \<open>Hashing\<close>

text \<open>
  \<^verbatim>\<open>armas.map(GetValue).filter((nif) => !!nif).map((nif) => `meshes\\${nif}`)\<close>
\<close>

definition nifsOf :: "Arma list \<Rightarrow> string list" where
  "nifsOf armas = map (\<lambda>nif. ''meshes'' @ [CHR 0x5C] @ nif) (filter (\<lambda>nif. nif \<noteq> []) (map model armas))"

text \<open>
  \<^verbatim>\<open>Promise.map(nifs, ...)\<close>: the hashes of all the nifs, or a rejection as soon as one
  of the streams fails. \<open>hasher\<close> is the content of the file system: the sha1 of the file
  at a path, \<open>None\<close> when the stream emits an error.
\<close>

fun hashNifs :: "(string \<Rightarrow> string option) \<Rightarrow> string \<Rightarrow> string list \<Rightarrow> string list option" where
  "hashNifs hasher d [] = Some []"
| "hashNifs hasher d (nif # nifs) =
     (case hasher (d @ nif) of
        None \<Rightarrow> None
      | Some hash \<Rightarrow>
          (case hashNifs hasher d nifs of None \<Rightarrow> None | Some hashes \<Rightarrow> Some (hash # hashes)))"

text \<open>
  \<^verbatim>\<open>.each((hash, i) => addName(hash, nifs[i]))\<close>, which runs on the array of hashes once
  the promise of \<^verbatim>\<open>Promise.map\<close> is fulfilled, and not at all when it is rejected.
\<close>

fun addNames :: "Memories \<Rightarrow> string list \<Rightarrow> string list \<Rightarrow> Memories" where
  "addNames mem (hash # hashes) (nif # nifs) = addNames (addName mem hash nif) hashes nifs"
| "addNames mem _ _ = mem"

subsection \<open>Remembered answers\<close>

text \<open>The \<^verbatim>\<open>switch (answer)\<close> that handles the "maybe" memories.\<close>

fun normalizeAnswer :: "bool \<Rightarrow> Answer option \<Rightarrow> Answered" where
  "normalizeAnswer redo (Some MaybeYes) = (if redo then None else Some Yes)"
| "normalizeAnswer redo (Some MaybeNo) = (if redo then None else Some No)"
| "normalizeAnswer redo answer = answer"

text \<open>\<^verbatim>\<open>answers[keyword]\<close>\<close>

definition answers :: "bool \<Rightarrow> Memories \<Rightarrow> string list \<Rightarrow> string \<Rightarrow> Answered list" where
  "answers redo mem hashes keyword =
     map (\<lambda>hash. normalizeAnswer redo (remembered mem hash keyword)) hashes"

text \<open>
  The filter that builds \<^verbatim>\<open>relevantAnswers[keyword]\<close> and, with its
  \<^verbatim>\<open>push(hashes[i])\<close>, \<^verbatim>\<open>relevantHashes[keyword]\<close>: entry \<open>i\<close> is kept when
  \<^verbatim>\<open>armas[i]\<close> has a flag outside \<^verbatim>\<open>irrelevantSlots\<close>. The index runs over the
  filtered list, which is never longer than \<^verbatim>\<open>armas\<close>.
\<close>

definition isRelevant :: "BodySlot list \<Rightarrow> Arma \<Rightarrow> bool" where
  "isRelevant irrelevant arma = list_ex (\<lambda>flag. flag \<notin> set irrelevant) (flags arma)"

definition relevantOnly :: "Arma list \<Rightarrow> BodySlot list \<Rightarrow> 'a list \<Rightarrow> 'a list" where
  "relevantOnly armas irrelevant xs =
     map snd (filter (\<lambda>(arma, x). isRelevant irrelevant arma) (zip armas xs))"

definition relevantAnswers ::
  "bool \<Rightarrow> Memories \<Rightarrow> Arma list \<Rightarrow> string list \<Rightarrow> string \<times> KeywordInfo \<Rightarrow> Answered list" where
  "relevantAnswers redo mem armas hashes kw =
     relevantOnly armas (irrelevantSlots (snd kw)) (answers redo mem hashes (fst kw))"

definition relevantHashes :: "Arma list \<Rightarrow> string list \<Rightarrow> string \<times> KeywordInfo \<Rightarrow> string list" where
  "relevantHashes armas hashes kw = relevantOnly armas (irrelevantSlots (snd kw)) hashes"

text \<open>
  \<^verbatim>\<open>keywords[keyword]\<close> for every keyword to patch; \<open>None\<close> when one of them is not
  in the table (the destructuring of \<^verbatim>\<open>undefined\<close> throws).
\<close>

fun resolve :: "(string \<rightharpoonup> KeywordInfo) \<Rightarrow> string list \<Rightarrow> (string \<times> KeywordInfo) list option" where
  "resolve infos [] = Some []"
| "resolve infos (keyword # rest) =
     (case infos keyword of
        None \<Rightarrow> None
      | Some info \<Rightarrow>
          (case resolve infos rest of None \<Rightarrow> None | Some kws \<Rightarrow> Some ((keyword, info) # kws)))"

subsection \<open>Decision\<close>

datatype Verdict = Apply | Skip | Ask

text \<open>
  The \<^verbatim>\<open>switch (type)\<close> that chooses the tag from the relevant past answers:
  \<^verbatim>\<open>some\<close> is \<open>list_ex\<close>, \<^verbatim>\<open>every\<close> is \<open>list_all\<close>. \<open>Apply\<close> is the branch that
  returns \<^verbatim>\<open>xelib.AddKeyword(armo, keyword)\<close>, \<open>Skip\<close> the bare \<^verbatim>\<open>return\<close>, \<open>Ask\<close>
  the \<^verbatim>\<open>break\<close> that leads to \<^verbatim>\<open>keywordsToAsk.push(keyword)\<close>.
\<close>

fun decide :: "KeywordType \<Rightarrow> Answered list \<Rightarrow> Verdict" where
  "decide Inclusive ras =
     (if list_ex (\<lambda>answer. answer = Some Yes) ras then Apply
      else if list_all (\<lambda>answer. answer = Some No) ras then Skip
      else Ask)"
| "decide Exclusive ras =
     (if list_all (\<lambda>answer. answer = Some Yes) ras then Apply
      else if list_ex (\<lambda>answer. answer = Some No) ras then Skip
      else Ask)"

text \<open>
  \<^verbatim>\<open>keywordsToPatch.forEach\<close> of the decision: the state with the keywords added so
  far, and \<^verbatim>\<open>keywordsToAsk\<close>.
\<close>

fun decideAll ::
  "(string \<times> KeywordInfo \<Rightarrow> Answered list) \<Rightarrow> (string \<times> KeywordInfo) list \<Rightarrow>
   State \<Rightarrow> (string \<times> KeywordInfo) list \<Rightarrow> State \<times> (string \<times> KeywordInfo) list" where
  "decideAll ras [] st toAsk = (st, toAsk)"
| "decideAll ras (kw # rest) st toAsk =
     (case decide (ktype (snd kw)) (ras kw) of
        Apply \<Rightarrow> decideAll ras rest (st\<lparr>added := added st @ [fst kw]\<rparr>) toAsk
      | Skip \<Rightarrow> decideAll ras rest st toAsk
      | Ask \<Rightarrow> decideAll ras rest st (toAsk @ [kw]))"

subsection \<open>Learning\<close>

text \<open>
  \<^verbatim>\<open>relevantHashes[keyword].filter((_, i) => relevantAnswers[keyword][i] !== definite)\<close>;
  the two lists come out of the same filter and have the same length.
\<close>

definition ambiguous :: "Answer \<Rightarrow> string list \<Rightarrow> Answered list \<Rightarrow> string list" where
  "ambiguous definite rhs ras =
     map fst (filter (\<lambda>(hash, answer). answer \<noteq> Some definite) (zip rhs ras))"

text \<open>\<^verbatim>\<open>if (hhashes.length === 1) addAnswer(keyword, hhashes[0], answer)\<close>\<close>

definition attribute :: "string \<Rightarrow> string list \<Rightarrow> Answer \<Rightarrow> Memories \<Rightarrow> Memories" where
  "attribute keyword hhashes answer mem =
     (case hhashes of [hash] \<Rightarrow> addAnswer mem keyword hash answer | _ \<Rightarrow> mem)"

text \<open>\<^verbatim>\<open>hashes.forEach((hash) => addAnswer(keyword, hash, answer))\<close>\<close>

definition recordAll :: "string \<Rightarrow> string list \<Rightarrow> Answer \<Rightarrow> Memories \<Rightarrow> Memories" where
  "recordAll keyword hashes answer mem = foldl (\<lambda>m hash. addAnswer m keyword hash answer) mem hashes"

text \<open>
  The body of \<^verbatim>\<open>choices.forEach\<close> for one keyword: \<open>Inl\<close> is the \<^verbatim>\<open>throw\<close>, which
  comes before any effect of that turn.
\<close>

fun learnOne ::
  "KeywordType \<Rightarrow> string \<Rightarrow> Choice \<Rightarrow> string list \<Rightarrow> string list \<Rightarrow> Answered list \<Rightarrow>
   State \<Rightarrow> error + State" where
  "learnOne Inclusive keyword ChoiceYes hashes rhs ras st =
     Inr (st\<lparr>taggednifs := attribute keyword (ambiguous No rhs ras) Yes (taggednifs st)\<rparr>)"
| "learnOne Inclusive keyword ChoiceMaybeYes hashes rhs ras st =
     Inr (st\<lparr>taggednifs := attribute keyword (ambiguous No rhs ras) MaybeYes (taggednifs st)\<rparr>)"
| "learnOne Inclusive keyword ChoiceNo hashes rhs ras st =
     Inr (st\<lparr>taggednifs := recordAll keyword hashes No (taggednifs st)\<rparr>)"
| "learnOne Inclusive keyword ChoiceMaybeNo hashes rhs ras st =
     Inr (st\<lparr>taggednifs := recordAll keyword hashes MaybeNo (taggednifs st)\<rparr>)"
| "learnOne Inclusive keyword ChoiceCancel hashes rhs ras st = Inl Cancelled"
| "learnOne Exclusive keyword ChoiceYes hashes rhs ras st =
     Inr (st\<lparr>added := added st @ [keyword],
             taggednifs := recordAll keyword hashes Yes (taggednifs st)\<rparr>)"
| "learnOne Exclusive keyword ChoiceMaybeYes hashes rhs ras st =
     Inr (st\<lparr>added := added st @ [keyword],
             taggednifs := recordAll keyword hashes MaybeYes (taggednifs st)\<rparr>)"
| "learnOne Exclusive keyword ChoiceNo hashes rhs ras st =
     Inr (st\<lparr>taggednifs := attribute keyword (ambiguous Yes rhs ras) No (taggednifs st)\<rparr>)"
| "learnOne Exclusive keyword ChoiceMaybeNo hashes rhs ras st =
     Inr (st\<lparr>taggednifs := attribute keyword (ambiguous Yes rhs ras) MaybeNo (taggednifs st)\<rparr>)"
| "learnOne Exclusive keyword ChoiceCancel hashes rhs ras st = Inl Cancelled"

text \<open>
  \<^verbatim>\<open>choices.forEach\<close>: the keywords to ask in order, each with the button chosen for
  it. \<open>rhs\<close> and \<open>ras\<close> are \<^verbatim>\<open>relevantHashes\<close> and \<^verbatim>\<open>relevantAnswers\<close>, computed
  before the first question. A \<^verbatim>\<open>throw\<close> leaves the loop with the state as it is.
\<close>

fun learn ::
  "(string \<times> KeywordInfo \<Rightarrow> string list) \<Rightarrow> (string \<times> KeywordInfo \<Rightarrow> Answered list) \<Rightarrow>
   string list \<Rightarrow> (string \<Rightarrow> Choice) \<Rightarrow> (string \<times> KeywordInfo) list \<Rightarrow> State \<Rightarrow>
   error option \<times> State" where
  "learn rhs ras hashes ask [] st = (None, st)"
| "learn rhs ras hashes ask (kw # rest) st =
     (case learnOne (ktype (snd kw)) (fst kw) (ask (fst kw)) hashes (rhs kw) (ras kw) st of
        Inl e \<Rightarrow> (Some e, st)
      | Inr st' \<Rightarrow> learn rhs ras hashes ask rest st')"

subsection \<open>patch\<close>

text \<open>
  The part of \<^verbatim>\<open>patch\<close> before the dialog: the hashing with its \<^verbatim>\<open>addName\<close>s and
  the automatic decision. \<open>Inl\<close> is a call that ends there; \<open>Inr\<close> holds the state, the
  hashes and \<^verbatim>\<open>keywordsToAsk\<close> when there is something to ask.
\<close>

definition beforeAsking ::
  "Settings \<Rightarrow> string list \<Rightarrow> Arma list \<Rightarrow> (string \<Rightarrow> string option) \<Rightarrow> State \<Rightarrow>
   Outcome \<times> State + State \<times> string list \<times> (string \<times> KeywordInfo) list" where
  "beforeAsking cfg keywordsToPatch armas hasher st =
     (let nifs = nifsOf armas in
      if nifs = [] then Inl (NothingToDo, st)
      else
        (case hashNifs hasher (dir cfg) nifs of
           None \<Rightarrow> Inl (NifError, st)
         | Some hashes \<Rightarrow>
             (let st1 = st\<lparr>taggednifs := addNames (taggednifs st) hashes nifs\<rparr> in
              case resolve (keywordInfos cfg) keywordsToPatch of
                None \<Rightarrow> Inl (Thrown TypeError, st1)
              | Some kws \<Rightarrow>
                  (case decideAll (relevantAnswers (redoMaybes cfg) (taggednifs st1) armas hashes)
                          kws st1 [] of
                     (st2, toAsk) \<Rightarrow>
                       if toAsk = [] then Inl (NothingToAsk, st2)
                       else Inr (st2, hashes, toAsk)))))"

text \<open>
  \<^verbatim>\<open>patch\<close>: \<open>ask\<close> is the button the user chooses in the dialog of a keyword. The
  learning works on the relevant hashes and answers as they were before asking.
\<close>

definition patch ::
  "Settings \<Rightarrow> string list \<Rightarrow> Arma list \<Rightarrow> (string \<Rightarrow> string option) \<Rightarrow> (string \<Rightarrow> Choice) \<Rightarrow>
   State \<Rightarrow> Outcome \<times> State" where
  "patch cfg keywordsToPatch armas hasher ask st =
     (case beforeAsking cfg keywordsToPatch armas hasher st of
        Inl ended \<Rightarrow> ended
      | Inr (st2, hashes, toAsk) \<Rightarrow>
          (case learn (relevantHashes armas hashes)
                  (relevantAnswers (redoMaybes cfg) (taggednifs st2) armas hashes)
                  hashes ask toAsk st2 of
             (Some e, st3) \<Rightarrow> (Thrown e, st3)
           | (None, st3) \<Rightarrow> (Saved, saveMemories st3)))"

text \<open>Spec-side notions for the duality of the two decision rules.\<close>

fun swapYesNo :: "Answered \<Rightarrow> Answered" where
  "swapYesNo (Some Yes) = Some No"
| "swapYesNo (Some No) = Some Yes"
| "swapYesNo answer = answer"

fun swapVerdict :: "Verdict \<Rightarrow> Verdict" where
  "swapVerdict Apply = Skip"
| "swapVerdict Skip = Apply"
| "swapVerdict Ask = Ask"

section \<open>Concrete records and stores\<close>

text \<open>
  Inputs for the scenarios below. \<open>ArmorHelmet\<close> is a second table entry, with the
  inclusive type the source documents for it; the shipped table holds
  \<open>SOS_Revealing\<close> alone.
\<close>

definition ArmorHelmet :: KeywordInfo where
  "ArmorHelmet =
     \<lparr>kid = ''ArmorHelmet'', description = ''helmet keyword'', ktype = Inclusive,
      relevantSlots = [''30 - Head''], irrelevantSlots = [], skipSlots = []\<rparr>"

definition oneKeyword :: Settings where
  "oneKeyword =
     \<lparr>redoMaybes = False, dir = ''Data/'',
      keywordInfos = [''SOS_Revealing'' \<mapsto> SOS_Revealing]\<rparr>"

definition twoKeywords :: Settings where
  "twoKeywords =
     \<lparr>redoMaybes = False, dir = ''Data/'',
      keywordInfos = [''SOS_Revealing'' \<mapsto> SOS_Revealing, ''ArmorHelmet'' \<mapsto> ArmorHelmet]\<rparr>"

definition emptyState :: State where
  "emptyState = \<lparr>taggednifs = Map.empty, added = [], memoryFile = Map.empty\<rparr>"

definition cuirass :: Arma where
  "cuirass = \<lparr>model = ''cuirass.nif'', flags = [''32 - Body'']\<rparr>"

definition skirt :: Arma where
  "skirt = \<lparr>model = ''skirt.nif'', flags = [''32 - Body'', ''49 - Unnamed'']\<rparr>"

definition hood :: Arma where
  "hood = \<lparr>model = ''hood.nif'', flags = [''30 - Head'']\<rparr>"

text \<open>A file system that holds the cuirass (content hash h1) and no other mesh.\<close>

definition onlyCuirass :: "string \<Rightarrow> string option" where
  "onlyCuirass path =
     (if path = ''Data/meshes'' @ [CHR 0x5C] @ ''cuirass.nif'' then Some ''h1'' else None)"

text \<open>A file system that holds every mesh: the cuirass is h1, the skirt h2, the rest h3.\<close>

definition allFiles :: "string \<Rightarrow> string option" where
  "allFiles path =
     (if path = ''Data/meshes'' @ [CHR 0x5C] @ ''cuirass.nif'' then Some ''h1''
      else if path = ''Data/meshes'' @ [CHR 0x5C] @ ''skirt.nif'' then Some ''h2''
      else Some ''h3'')"

text \<open>
  A patcher that has learned, and saved, that h1 is revealing; it saw h1 under another
  file name.
\<close>

definition knownCuirass :: State where
  "knownCuirass =
     \<lparr>taggednifs = [''h1'' \<mapsto> \<lparr>filenames = [''meshes'' @ [CHR 0x5C] @ ''old.nif''],
                                mkeywords = [''SOS_Revealing'' \<mapsto> Yes]\<rparr>],
      added = [],
      memoryFile = [''h1'' \<mapsto> \<lparr>filenames = [''meshes'' @ [CHR 0x5C] @ ''old.nif''],
                                mkeywords = [''SOS_Revealing'' \<mapsto> Yes]\<rparr>]\<rparr>"

text \<open>The same patcher, knowing in addition that h2 is not revealing.\<close>

definition knownBoth :: State where
  "knownBoth =
     knownCuirass\<lparr>taggednifs := (taggednifs knownCuirass)
       (''h2'' \<mapsto> \<lparr>filenames = [''meshes'' @ [CHR 0x5C] @ ''skirt.nif''],
                    mkeywords = [''SOS_Revealing'' \<mapsto> No]\<rparr>)\<rparr>"

text \<open>A user who says yes to \<open>SOS_Revealing\<close> and cancels every other question.\<close>

definition yesThenCancel :: "string \<Rightarrow> Choice" where
  "yesThenCancel keyword = (if keyword = ''SOS_Revealing'' then ChoiceYes else ChoiceCancel)"



section \<open>Evaluation of the model\<close>

lemmas run_defs = patch_def beforeAsking_def nifsOf_def addName_def pushNew_def
  relevantAnswers_def relevantHashes_def relevantOnly_def isRelevant_def answers_def
  remembered_def saveMemories_def recordAll_def addAnswer_def attribute_def ambiguous_def

lemmas example_defs = oneKeyword_def twoKeywords_def emptyState_def cuirass_def skirt_def
  hood_def onlyCuirass_def allFiles_def knownCuirass_def knownBoth_def yesThenCancel_def
  SOS_Revealing_def ArmorHelmet_def

section \<open>Normalisation of remembered answers\<close>

lemma normalizeAnswer_cases:
  "normalizeAnswer redo a =
     (if a = Some MaybeYes then (if redo then None else Some Yes)
      else if a = Some MaybeNo then (if redo then None else Some No)
      else a)"
  by (cases "(redo, a)" rule: normalizeAnswer.cases) auto

lemma normalizeAnswer_definite:
  "Some MaybeYes \<noteq> normalizeAnswer redo a" "Some MaybeNo \<noteq> normalizeAnswer redo a"
  by (simp_all add: normalizeAnswer_cases)

lemma set_relevantOnly: "set (relevantOnly armas irrelevant xs) \<subseteq> set xs"
  by (auto simp: relevantOnly_def dest: set_zip_rightD)

text \<open>
  C5. The answers the decision works on are the remembered ones after normalisation:
  with \<^verbatim>\<open>redoMaybes\<close> off, \<open>MaybeYes\<close> counts as \<open>Yes\<close> and \<open>MaybeNo\<close> as \<open>No\<close>;
  with it on, both count as unknown; \<open>Yes\<close>, \<open>No\<close> and an absent answer pass through
  unchanged. \<^verbatim>\<open>answers[keyword]\<close> is the normalised list, and no "maybe" is left in
  the relevant answers the decision rule reads.
\<close>

theorem normalized_before_decision:
  "normalizeAnswer False (Some MaybeYes) = Some Yes \<and>
   normalizeAnswer False (Some MaybeNo) = Some No \<and>
   normalizeAnswer True (Some MaybeYes) = None \<and>
   normalizeAnswer True (Some MaybeNo) = None \<and>
   normalizeAnswer redo (Some Yes) = Some Yes \<and>
   normalizeAnswer redo (Some No) = Some No \<and>
   normalizeAnswer redo None = None \<and>
   answers redo mem hashes keyword =
     map (\<lambda>hash. normalizeAnswer redo (remembered mem hash keyword)) hashes \<and>
   Some MaybeYes \<notin> set (relevantAnswers redo mem armas hashes kw) \<and>
   Some MaybeNo \<notin> set (relevantAnswers redo mem armas hashes kw)"
proof -
  have "set (relevantAnswers redo mem armas hashes kw) \<subseteq> set (answers redo mem hashes (fst kw))"
    unfolding relevantAnswers_def by (rule set_relevantOnly)
  moreover have "Some MaybeYes \<notin> set (answers redo mem hashes (fst kw))"
    "Some MaybeNo \<notin> set (answers redo mem hashes (fst kw))"
    by (auto simp: answers_def normalizeAnswer_definite)
  ultimately show ?thesis by (auto simp: answers_def)
qed

theorem normalized_before_decision_witness:
  "answers True (taggednifs knownBoth) [''h1'', ''h2'', ''h3''] ''SOS_Revealing''
     = [Some Yes, Some No, None] \<and>
   answers False (addAnswer (taggednifs knownBoth) ''SOS_Revealing'' ''h1'' MaybeNo)
       [''h1'', ''h2'', ''h3''] ''SOS_Revealing''
     = [Some No, Some No, None] \<and>
   answers True (addAnswer (taggednifs knownBoth) ''SOS_Revealing'' ''h1'' MaybeNo)
       [''h1'', ''h2'', ''h3''] ''SOS_Revealing''
     = [None, Some No, None]"
  using normalized_before_decision [of True "taggednifs knownBoth" "[''h1'', ''h2'', ''h3'']"
      "''SOS_Revealing''"]
    normalized_before_decision [of False
      "addAnswer (taggednifs knownBoth) ''SOS_Revealing'' ''h1'' MaybeNo"
      "[''h1'', ''h2'', ''h3'']" "''SOS_Revealing''"]
    normalized_before_decision [of True
      "addAnswer (taggednifs knownBoth) ''SOS_Revealing'' ''h1'' MaybeNo"
      "[''h1'', ''h2'', ''h3'']" "''SOS_Revealing''"]
  by (simp add: remembered_def addAnswer_def knownBoth_def knownCuirass_def)

section \<open>The decision rules\<close>

lemma swapYesNo_Yes: "swapYesNo a = Some Yes \<longleftrightarrow> a = Some No"
  by (cases a rule: swapYesNo.cases) auto

lemma swapYesNo_No: "swapYesNo a = Some No \<longleftrightarrow> a = Some Yes"
  by (cases a rule: swapYesNo.cases) auto

lemma list_all_swapYesNo:
  "list_all (\<lambda>a. a = Some Yes) (map swapYesNo ras) = list_all (\<lambda>a. a = Some No) ras"
  by (induction ras) (simp_all add: swapYesNo_Yes)

lemma list_ex_swapYesNo:
  "list_ex (\<lambda>a. a = Some No) (map swapYesNo ras) = list_ex (\<lambda>a. a = Some Yes) ras"
  by (induction ras) (simp_all add: swapYesNo_No)

lemma decide_Inclusive_dual:
  "decide Inclusive ras = swapVerdict (decide Exclusive (map swapYesNo ras))"
proof -
  have "\<not> (list_ex (\<lambda>a. a = Some Yes) ras \<and> list_all (\<lambda>a. a = Some No) ras)"
    by (auto simp: list_ex_iff list_all_iff)
  then show ?thesis
    by (auto simp: list_all_swapYesNo list_ex_swapYesNo)
qed

lemma decide_Inclusive_iff:
  "decide Inclusive ras = Apply \<longleftrightarrow> Some Yes \<in> set ras"
  "decide Inclusive ras = Skip \<longleftrightarrow> (\<forall>a\<in>set ras. a = Some No)"
  "decide Inclusive ras = Ask \<longleftrightarrow> Some Yes \<notin> set ras \<and> \<not> (\<forall>a\<in>set ras. a = Some No)"
  by (auto simp: list_ex_iff list_all_iff)

text \<open>
  C1, as the code has it. For an Exclusive keyword the verdict over the relevant
  normalised answers is \<open>Apply\<close> iff every relevant answer is \<open>Yes\<close>, which holds
  vacuously when there is no relevant answer at all; \<open>Skip\<close> iff some relevant answer is
  \<open>No\<close>; \<open>Ask\<close> otherwise. The verdict depends on the multiset of the answers only, not
  on their order.
\<close>

theorem exclusive_decision:
  "(decide Exclusive ras = Apply \<longleftrightarrow> (\<forall>a\<in>set ras. a = Some Yes)) \<and>
   (decide Exclusive ras = Skip \<longleftrightarrow> Some No \<in> set ras) \<and>
   (decide Exclusive ras = Ask \<longleftrightarrow> \<not> (\<forall>a\<in>set ras. a = Some Yes) \<and> Some No \<notin> set ras) \<and>
   (mset ras = mset ras' \<longrightarrow> decide Exclusive ras = decide Exclusive ras')"
proof -
  have "decide Exclusive ras = decide Exclusive ras'" if "mset ras = mset ras'"
  proof -
    from that have "set ras = set ras'" by (rule mset_eq_setD)
    then show ?thesis by (simp add: list_ex_iff list_all_iff)
  qed
  then show ?thesis by (auto simp: list_ex_iff list_all_iff)
qed

theorem exclusive_decision_witness:
  "mset [Some No, Some Yes, None] = mset [Some Yes, None, Some No] \<and>
   decide Exclusive [Some Yes, Some Yes] = Apply \<and>
   decide Exclusive [Some Yes, None, Some No] = Skip \<and>
   decide Exclusive [Some Yes, None] = Ask \<and>
   decide Exclusive [Some No, Some Yes, None] = decide Exclusive [Some Yes, None, Some No]"
  using exclusive_decision [of "[Some No, Some Yes, None]" "[Some Yes, None, Some No]"]
  by simp

text \<open>
  C1 as stated asks for at least one relevant answer before \<open>Apply\<close>. With no relevant
  answer the rule still says \<open>Apply\<close>: a record whose only ARMA covers the head alone, a
  slot irrelevant to \<open>SOS_Revealing\<close>, gets the keyword from an empty memory and without
  a question.
\<close>

theorem exclusive_empty_counterexample:
  "\<not> (decide Exclusive [] = Apply \<longleftrightarrow>
        (\<forall>a\<in>set []. a = Some Yes) \<and> 1 \<le> length ([] :: Answered list)) \<and>
   relevantAnswers False (taggednifs emptyState) [hood] [''h3'']
       (''SOS_Revealing'', SOS_Revealing) = [] \<and>
   fst (patch oneKeyword [''SOS_Revealing''] [hood] allFiles yesThenCancel emptyState)
     = NothingToAsk \<and>
   added (snd (patch oneKeyword [''SOS_Revealing''] [hood] allFiles yesThenCancel emptyState))
     = [''SOS_Revealing'']"
  by (simp add: run_defs example_defs)

text \<open>
  C4. The Inclusive rule is the dual of the Exclusive one: it gives \<open>Apply\<close> iff some
  relevant answer is \<open>Yes\<close>, \<open>Skip\<close> iff every relevant answer is \<open>No\<close>, \<open>Ask\<close>
  otherwise, and that is the Exclusive verdict on the list with \<open>Yes\<close> and \<open>No\<close>
  swapped, with \<open>Apply\<close> and \<open>Skip\<close> exchanged.
\<close>

theorem inclusive_dual_of_exclusive:
  "decide Inclusive ras = swapVerdict (decide Exclusive (map swapYesNo ras)) \<and>
   (decide Inclusive ras = Apply \<longleftrightarrow> Some Yes \<in> set ras) \<and>
   (decide Inclusive ras = Skip \<longleftrightarrow> (\<forall>a\<in>set ras. a = Some No)) \<and>
   (decide Inclusive ras = Ask \<longleftrightarrow> Some Yes \<notin> set ras \<and> \<not> (\<forall>a\<in>set ras. a = Some No))"
  using decide_Inclusive_dual [of ras] decide_Inclusive_iff [of ras] by blast

theorem inclusive_dual_of_exclusive_witness:
  "decide Inclusive [None, Some Yes, Some No] = Apply \<and>
   decide Exclusive (map swapYesNo [None, Some Yes, Some No]) = Skip \<and>
   decide Inclusive [Some No, Some No] = Skip \<and>
   decide Inclusive [Some No, None] = Ask \<and>
   decide Inclusive [] = Skip"
  using inclusive_dual_of_exclusive [of "[None, Some Yes, Some No]"]
  by simp

section \<open>The learning step\<close>

lemma remembered_addAnswer:
  "remembered (addAnswer mem k h a) h' k' =
     (if h' = h \<and> k' = k then Some a else remembered mem h' k')"
  by (simp add: remembered_def addAnswer_def split: option.splits)

lemma addAnswer_other: "h' \<noteq> h \<Longrightarrow> addAnswer mem k h a h' = mem h'"
  by (simp add: addAnswer_def split: option.splits)

lemma remembered_recordAll:
  "remembered (recordAll k hs a mem) h' k' =
     (if h' \<in> set hs \<and> k' = k then Some a else remembered mem h' k')"
  unfolding recordAll_def
  by (induction hs arbitrary: mem) (auto simp: remembered_addAnswer)

lemma recordAll_other: "h' \<notin> set hs \<Longrightarrow> recordAll k hs a mem h' = mem h'"
  unfolding recordAll_def
  by (induction hs arbitrary: mem) (auto simp: addAnswer_other)

lemma remembered_attribute:
  "remembered (attribute k hhashes a mem) h' k' =
     (if hhashes = [h'] \<and> k' = k then Some a else remembered mem h' k')"
  by (auto simp: attribute_def remembered_addAnswer split: list.splits)




text \<open>
  C3. When the user answers Yes or Maybe Yes for an Exclusive keyword, the keyword is
  added to the record and the chosen answer (\<open>Yes\<close>, respectively \<open>MaybeYes\<close>) is
  recorded for that keyword against the hash of every component, relevant or not.
  Nothing else changes: the other hashes, the other keywords and the memory file stay as
  they were.
\<close>

theorem exclusive_yes_recorded_for_all:
  assumes "choice = ChoiceYes \<and> answer = Yes \<or> choice = ChoiceMaybeYes \<and> answer = MaybeYes"
  shows "\<exists>st'. learnOne Exclusive keyword choice hashes rhs ras st = Inr st' \<and>
     added st' = added st @ [keyword] \<and>
     (\<forall>hash\<in>set hashes. remembered (taggednifs st') hash keyword = Some answer) \<and>
     (\<forall>hash. hash \<notin> set hashes \<longrightarrow> taggednifs st' hash = taggednifs st hash) \<and>
     (\<forall>hash k. k \<noteq> keyword \<longrightarrow>
        remembered (taggednifs st') hash k = remembered (taggednifs st) hash k) \<and>
     memoryFile st' = memoryFile st"
  using assms by (auto simp: remembered_recordAll recordAll_other)

theorem exclusive_yes_recorded_for_all_witness:
  "\<exists>st'. learnOne Exclusive ''SOS_Revealing'' ChoiceMaybeYes [''h1'', ''h3''] [''h1''] [None]
            emptyState = Inr st' \<and>
     added st' = [''SOS_Revealing''] \<and>
     remembered (taggednifs st') ''h1'' ''SOS_Revealing'' = Some MaybeYes \<and>
     remembered (taggednifs st') ''h3'' ''SOS_Revealing'' = Some MaybeYes \<and>
     taggednifs st' ''h2'' = None"
  using exclusive_yes_recorded_for_all [of ChoiceMaybeYes MaybeYes "''SOS_Revealing''"
      "[''h1'', ''h3'']" "[''h1'']" "[None]" emptyState]
  by (auto simp: emptyState_def)



text \<open>
  The count is over components: when two relevant components have the same mesh, its
  hash stands twice among the ambiguous ones and the answer is not attributed.
\<close>

lemma same_hash_twice_not_attributed:
  "ambiguous Yes [''h2'', ''h2''] [None, None] = [''h2'', ''h2''] \<and>
   learnOne Exclusive ''SOS_Revealing'' ChoiceNo [''h2'', ''h2''] [''h2'', ''h2''] [None, None]
     knownCuirass = Inr knownCuirass"
  by (simp add: ambiguous_def attribute_def)

section \<open>Import of a second memory file\<close>























text \<open>
  The scenario of the specification: the import knows h1 as \<open>a\<close> with \<open>K: Yes\<close>, the
  local store knows it as \<open>b\<close> with no answer.
\<close>

lemma merge_scenario:
  "mergeMemories [''h1'' \<mapsto> \<lparr>filenames = [''b''], mkeywords = Map.empty\<rparr>]
     [''h1'' \<mapsto> \<lparr>filenames = [''a''], mkeywords = [''K'' \<mapsto> Yes]\<rparr>] [''h1'']
   = [''h1'' \<mapsto> \<lparr>filenames = [''b'', ''a''], mkeywords = [''K'' \<mapsto> Yes]\<rparr>]"
  by (simp add: mergeMemories_def mergeStep_def mergeMemory_def newSet_def pushNew_def)

text \<open>
  With a name stored twice the merge of a store with itself drops the repetition: the
  result is the same store in the sense above, not the same value.
\<close>

lemma merge_self_repeated_name:
  "mergeMemories [''h1'' \<mapsto> \<lparr>filenames = [''a'', ''a''], mkeywords = Map.empty\<rparr>]
     [''h1'' \<mapsto> \<lparr>filenames = [''a'', ''a''], mkeywords = Map.empty\<rparr>] [''h1'']
   = [''h1'' \<mapsto> \<lparr>filenames = [''a''], mkeywords = Map.empty\<rparr>]"
  by (simp add: mergeMemories_def mergeStep_def mergeMemory_def newSet_def pushNew_def)

text \<open>
  \<^verbatim>\<open>importMemories\<close> works on the memory file: the mapping the patcher holds and the
  record are not touched, and without a selected file nothing happens.
\<close>

lemma importMemories_file_only:
  "taggednifs (importMemories selected st) = taggednifs st \<and>
   added (importMemories selected st) = added st \<and>
   importMemories None st = st \<and>
   memoryFile (importMemories (Some (newMemories, hashes)) st)
     = mergeMemories (memoryFile st) newMemories hashes"
  by (simp add: importMemories_def split: option.splits prod.splits)

section \<open>The patch of one record\<close>

subsection \<open>Hashing and the automatic decision\<close>

lemma hashNifs_None_iff:
  "hashNifs hasher d nifs = None \<longleftrightarrow> (\<exists>nif\<in>set nifs. hasher (d @ nif) = None)"
  by (induction nifs) (auto split: option.splits)

lemma remembered_addName: "remembered (addName mem hash nif) h k = remembered mem h k"
  by (simp add: remembered_def addName_def split: option.splits)

lemma remembered_addNames: "remembered (addNames mem hashes nifs) h k = remembered mem h k"
  by (induction mem hashes nifs rule: addNames.induct) (simp_all add: remembered_addName)

lemma addName_keeps_keywords:
  "mem h = Some m \<Longrightarrow> \<exists>m'. addName mem hash nif h = Some m' \<and> mkeywords m' = mkeywords m"
  by (auto simp: addName_def split: option.splits)

lemma addNames_keeps_keywords:
  "mem h = Some m \<Longrightarrow> \<exists>m'. addNames mem hashes nifs h = Some m' \<and> mkeywords m' = mkeywords m"
proof (induction mem hashes nifs arbitrary: m rule: addNames.induct)
  case (1 mem hash hashes nif nifs)
  from "1.prems" addName_keeps_keywords [of mem h m hash nif]
  obtain m1 where m1: "addName mem hash nif h = Some m1" "mkeywords m1 = mkeywords m" by blast
  from "1.IH" [OF m1(1)] m1(2) show ?case by simp
qed simp_all

text \<open>The decision loop adds the keywords it applies and collects the ones to ask.\<close>

lemma decideAll_eq:
  "decideAll ras kws st toAsk =
     (st\<lparr>added := added st @ map fst (filter (\<lambda>kw. decide (ktype (snd kw)) (ras kw) = Apply) kws)\<rparr>,
      toAsk @ filter (\<lambda>kw. decide (ktype (snd kw)) (ras kw) = Ask) kws)"
  by (induction kws arbitrary: st toAsk) (auto split: Verdict.splits)


lemma beforeAsking_Inr:
  assumes "beforeAsking cfg keywordsToPatch armas hasher st = Inr (st2, hashes, toAsk)"
  shows "\<exists>kws st1 ras.
     hashNifs hasher (dir cfg) (nifsOf armas) = Some hashes \<and>
     resolve (keywordInfos cfg) keywordsToPatch = Some kws \<and>
     st1 = st\<lparr>taggednifs := addNames (taggednifs st) hashes (nifsOf armas)\<rparr> \<and>
     ras = relevantAnswers (redoMaybes cfg) (taggednifs st1) armas hashes \<and>
     st2 = st1\<lparr>added := added st1 @
       map fst (filter (\<lambda>kw. decide (ktype (snd kw)) (ras kw) = Apply) kws)\<rparr> \<and>
     toAsk = filter (\<lambda>kw. decide (ktype (snd kw)) (ras kw) = Ask) kws"
  using assms
  by (auto simp: beforeAsking_def Let_def decideAll_eq split: if_splits option.splits)

lemma beforeAsking_Inl:
  assumes "beforeAsking cfg keywordsToPatch armas hasher st = Inl (out, st')"
  shows "memoryFile st' = memoryFile st \<and>
     (taggednifs st' = taggednifs st \<or>
      (\<exists>hashes. taggednifs st' = addNames (taggednifs st) hashes (nifsOf armas)))"
  using assms
  by (auto simp: beforeAsking_def Let_def decideAll_eq split: if_splits option.splits)

lemma patch_asked:
  "beforeAsking cfg keywordsToPatch armas hasher st = Inr (st2, hashes, toAsk) \<Longrightarrow>
   patch cfg keywordsToPatch armas hasher ask st =
     (case learn (relevantHashes armas hashes)
             (relevantAnswers (redoMaybes cfg) (taggednifs st2) armas hashes)
             hashes ask toAsk st2 of
        (Some e, st3) \<Rightarrow> (Thrown e, st3)
      | (None, st3) \<Rightarrow> (Saved, saveMemories st3))"
  by (simp add: patch_def)

text \<open>
  C10. Up to the dialog, that is through the hashing with its \<^verbatim>\<open>addName\<close>s and the
  automatic decision, no remembered answer changes: every hash has the same answer for
  every keyword as before, an entry that existed keeps its keywords field as it was, and
  the memory file is not written. \<^verbatim>\<open>addName\<close> by itself leaves every answer alone.
  A call that ends before the dialog ends in that state.
\<close>

theorem answers_untouched_before_asking:
  assumes "beforeAsking cfg keywordsToPatch armas hasher st = Inl (out, st') \<or>
           beforeAsking cfg keywordsToPatch armas hasher st = Inr (st', hashes, toAsk)"
  shows "(\<forall>hash keyword. remembered (taggednifs st') hash keyword
            = remembered (taggednifs st) hash keyword) \<and>
     (\<forall>hash m. taggednifs st hash = Some m \<longrightarrow>
        (\<exists>m'. taggednifs st' hash = Some m' \<and> mkeywords m' = mkeywords m)) \<and>
     memoryFile st' = memoryFile st \<and>
     (\<forall>mem hash nif h k. remembered (addName mem hash nif) h k = remembered mem h k) \<and>
     (beforeAsking cfg keywordsToPatch armas hasher st = Inl (out, st') \<longrightarrow>
        patch cfg keywordsToPatch armas hasher ask st = (out, st'))"
proof -
  from assms have "memoryFile st' = memoryFile st \<and>
     (taggednifs st' = taggednifs st \<or>
      (\<exists>hs. taggednifs st' = addNames (taggednifs st) hs (nifsOf armas)))"
  proof
    assume "beforeAsking cfg keywordsToPatch armas hasher st = Inl (out, st')"
    then show ?thesis by (rule beforeAsking_Inl)
  next
    assume "beforeAsking cfg keywordsToPatch armas hasher st = Inr (st', hashes, toAsk)"
    from beforeAsking_Inr [OF this] show ?thesis by auto
  qed
  then have f: "memoryFile st' = memoryFile st"
    and t: "taggednifs st' = taggednifs st \<or>
      (\<exists>hs. taggednifs st' = addNames (taggednifs st) hs (nifsOf armas))"
    by simp_all
  from t have r: "\<forall>hash keyword. remembered (taggednifs st') hash keyword
            = remembered (taggednifs st) hash keyword"
    by (auto simp: remembered_addNames)
  have k: "\<forall>hash m. taggednifs st hash = Some m \<longrightarrow>
        (\<exists>m'. taggednifs st' hash = Some m' \<and> mkeywords m' = mkeywords m)"
  proof (intro allI impI)
    fix hash m
    assume s: "taggednifs st hash = Some m"
    from t show "\<exists>m'. taggednifs st' hash = Some m' \<and> mkeywords m' = mkeywords m"
    proof
      assume "taggednifs st' = taggednifs st"
      with s show ?thesis by simp
    next
      assume "\<exists>hs. taggednifs st' = addNames (taggednifs st) hs (nifsOf armas)"
      then obtain hs where "taggednifs st' = addNames (taggednifs st) hs (nifsOf armas)" ..
      with addNames_keeps_keywords [of "taggednifs st" hash m hs "nifsOf armas"] s
      show ?thesis by simp
    qed
  qed
  have p: "beforeAsking cfg keywordsToPatch armas hasher st = Inl (out, st') \<longrightarrow>
        patch cfg keywordsToPatch armas hasher ask st = (out, st')"
    by (simp add: patch_def)
  from r k f p show ?thesis by (simp add: remembered_addName)
qed

theorem answers_untouched_before_asking_witness:
  "beforeAsking oneKeyword [''SOS_Revealing''] [cuirass] allFiles knownCuirass
     = Inl (NothingToAsk,
            knownCuirass\<lparr>taggednifs :=
                addName (taggednifs knownCuirass) ''h1'' (''meshes'' @ [CHR 0x5C] @ ''cuirass.nif''),
              added := [''SOS_Revealing'']\<rparr>) \<and>
   remembered (addName (taggednifs knownCuirass) ''h1'' (''meshes'' @ [CHR 0x5C] @ ''cuirass.nif''))
       ''h1'' ''SOS_Revealing'' = Some Yes \<and>
   patch oneKeyword [''SOS_Revealing''] [cuirass] allFiles yesThenCancel knownCuirass
     = (NothingToAsk,
        knownCuirass\<lparr>taggednifs :=
            addName (taggednifs knownCuirass) ''h1'' (''meshes'' @ [CHR 0x5C] @ ''cuirass.nif''),
          added := [''SOS_Revealing'']\<rparr>)"
proof -
  have b: "beforeAsking oneKeyword [''SOS_Revealing''] [cuirass] allFiles knownCuirass
     = Inl (NothingToAsk,
            knownCuirass\<lparr>taggednifs :=
                addName (taggednifs knownCuirass) ''h1'' (''meshes'' @ [CHR 0x5C] @ ''cuirass.nif''),
              added := [''SOS_Revealing'']\<rparr>)"
    by (simp add: run_defs example_defs)
  have r: "remembered (taggednifs knownCuirass) ''h1'' ''SOS_Revealing'' = Some Yes"
    by (simp add: remembered_def knownCuirass_def)
  from answers_untouched_before_asking [where ask = yesThenCancel, OF disjI1, OF b] b r
  show ?thesis by simp
qed

subsection \<open>A nif that cannot be hashed\<close>

text \<open>
  C7, as the code has it. When the hash of one of the record's nifs fails, the patch of
  that record ends there with a normal return (the error is caught and logged, nothing
  is thrown), and the state is exactly what it was: no tag, no answer, and no filename
  either, also for the nifs of the record whose hash did complete.
\<close>

theorem hash_failure_skips_record:
  assumes "nif \<in> set (nifsOf armas)" and "hasher (dir cfg @ nif) = None"
  shows "patch cfg keywordsToPatch armas hasher ask st = (NifError, st)"
proof -
  from assms have "hashNifs hasher (dir cfg) (nifsOf armas) = None"
    by (auto simp: hashNifs_None_iff)
  moreover from assms(1) have "nifsOf armas \<noteq> []" by auto
  ultimately show ?thesis by (simp add: patch_def beforeAsking_def)
qed

theorem hash_failure_skips_record_witness:
  "''meshes'' @ [CHR 0x5C] @ ''skirt.nif'' \<in> set (nifsOf [cuirass, skirt]) \<and>
   onlyCuirass (dir oneKeyword @ ''meshes'' @ [CHR 0x5C] @ ''skirt.nif'') = None \<and>
   patch oneKeyword [''SOS_Revealing''] [cuirass, skirt] onlyCuirass yesThenCancel knownCuirass
     = (NifError, knownCuirass)"
proof -
  have a: "''meshes'' @ [CHR 0x5C] @ ''skirt.nif'' \<in> set (nifsOf [cuirass, skirt])"
    by (simp add: nifsOf_def cuirass_def skirt_def)
  have b: "onlyCuirass (dir oneKeyword @ ''meshes'' @ [CHR 0x5C] @ ''skirt.nif'') = None"
    by (simp add: onlyCuirass_def oneKeyword_def)
  from hash_failure_skips_record [where hasher = onlyCuirass and cfg = oneKeyword
      and armas = "[cuirass, skirt]" and nif = "''meshes'' @ [CHR 0x5C] @ ''skirt.nif''", OF a b]
    a b
  show ?thesis by simp
qed

text \<open>
  C7 as stated has the names of the nifs that were hashed recorded all the same. The
  cuirass is hashed (h1), the skirt cannot be read: the memory holds nothing for h1
  afterwards.
\<close>

theorem sibling_names_counterexample:
  "onlyCuirass (dir oneKeyword @ ''meshes'' @ [CHR 0x5C] @ ''cuirass.nif'') = Some ''h1'' \<and>
   onlyCuirass (dir oneKeyword @ ''meshes'' @ [CHR 0x5C] @ ''skirt.nif'') = None \<and>
   fst (patch oneKeyword [''SOS_Revealing''] [cuirass, skirt] onlyCuirass yesThenCancel emptyState)
     = NifError \<and>
   \<not> (\<exists>m. taggednifs (snd (patch oneKeyword [''SOS_Revealing''] [cuirass, skirt] onlyCuirass
              yesThenCancel emptyState)) ''h1'' = Some m \<and>
          ''meshes'' @ [CHR 0x5C] @ ''cuirass.nif'' \<in> set (filenames m))"
  by (simp add: run_defs example_defs)

subsection \<open>Saving\<close>

text \<open>
  C8 at a record the patcher decides by itself. h1 is known, and saved, as revealing
  under the name \<open>old.nif\<close>; the record's cuirass has the same content under a new name.
  The patch adds the keyword and records the new name in \<^verbatim>\<open>taggednifs\<close>, then
  returns at \<^verbatim>\<open>keywordsToAsk.length === 0\<close>, before \<^verbatim>\<open>saveMemories\<close>: the memory
  file still holds the old name alone.
\<close>

theorem names_not_saved_when_nothing_asked:
  "fst (patch oneKeyword [''SOS_Revealing''] [cuirass] allFiles yesThenCancel knownCuirass)
     = NothingToAsk \<and>
   added (snd (patch oneKeyword [''SOS_Revealing''] [cuirass] allFiles yesThenCancel knownCuirass))
     = [''SOS_Revealing''] \<and>
   taggednifs (snd (patch oneKeyword [''SOS_Revealing''] [cuirass] allFiles yesThenCancel
       knownCuirass)) ''h1''
     = Some \<lparr>filenames = [''meshes'' @ [CHR 0x5C] @ ''old.nif'', ''meshes'' @ [CHR 0x5C] @ ''cuirass.nif''],
             mkeywords = [''SOS_Revealing'' \<mapsto> Yes]\<rparr> \<and>
   memoryFile (snd (patch oneKeyword [''SOS_Revealing''] [cuirass] allFiles yesThenCancel
       knownCuirass)) ''h1''
     = Some \<lparr>filenames = [''meshes'' @ [CHR 0x5C] @ ''old.nif''],
             mkeywords = [''SOS_Revealing'' \<mapsto> Yes]\<rparr>"
  by (simp add: run_defs example_defs)

text \<open>The sibling path: a record that leads to a question, once answered, is saved whole.\<close>

lemma names_saved_after_question:
  "fst (patch oneKeyword [''SOS_Revealing''] [skirt] allFiles yesThenCancel knownCuirass) = Saved \<and>
   memoryFile (snd (patch oneKeyword [''SOS_Revealing''] [skirt] allFiles yesThenCancel knownCuirass))
     = taggednifs (snd (patch oneKeyword [''SOS_Revealing''] [skirt] allFiles yesThenCancel
         knownCuirass)) \<and>
   memoryFile (snd (patch oneKeyword [''SOS_Revealing''] [skirt] allFiles yesThenCancel knownCuirass))
       ''h2''
     = Some \<lparr>filenames = [''meshes'' @ [CHR 0x5C] @ ''skirt.nif''],
             mkeywords = [''SOS_Revealing'' \<mapsto> Yes]\<rparr>"
  by (simp add: run_defs example_defs)

subsection \<open>Cancel\<close>



text \<open>
  A turn of the learning loop that does not throw leaves the memory file alone, adds at
  most its own keyword to the record, and writes answers for its own keyword only.
\<close>

lemma learnOne_frame:
  assumes "learnOne ty k0 c hs rhs ras st = Inr st'"
  shows "memoryFile st' = memoryFile st"
    and "\<exists>new. added st' = added st @ new \<and> set new \<subseteq> {k0}"
    and "k \<noteq> k0 \<Longrightarrow> remembered (taggednifs st') h k = remembered (taggednifs st) h k"
  using assms
  by (cases ty; cases c; auto simp: remembered_recordAll remembered_attribute)+

lemma learn_memoryFile:
  "learn rhs ras hs ask toAsk st = (r, st3) \<Longrightarrow> memoryFile st3 = memoryFile st"
proof (induction toAsk arbitrary: st)
  case Nil
  then show ?case by simp
next
  case (Cons kw rest)
  then show ?case
    by (auto split: sum.splits dest: learnOne_frame(1))
qed



text \<open>The memory file is written by the one \<^verbatim>\<open>saveMemories\<close> at the end, or not at all.\<close>

lemma patch_memoryFile:
  assumes "patch cfg keywordsToPatch armas hasher ask st = (out, st')"
  shows "memoryFile st' = (if out = Saved then taggednifs st' else memoryFile st)"
proof (cases "beforeAsking cfg keywordsToPatch armas hasher st")
  case (Inl res)
  with assms have d: "res = (out, st')" by (simp add: patch_def)
  with Inl have "out \<noteq> Saved"
    by (auto simp: beforeAsking_def Let_def decideAll_eq split: if_splits option.splits)
  with beforeAsking_Inl [of cfg keywordsToPatch armas hasher st out st'] Inl d
  show ?thesis by simp
next
  case (Inr p)
  obtain st2 hashes toAsk where p: "p = (st2, hashes, toAsk)" by (cases p)
  obtain r st3 where l: "learn (relevantHashes armas hashes)
      (relevantAnswers (redoMaybes cfg) (taggednifs st2) armas hashes) hashes ask toAsk st2
      = (r, st3)"
    by (cases "learn (relevantHashes armas hashes)
      (relevantAnswers (redoMaybes cfg) (taggednifs st2) armas hashes) hashes ask toAsk st2")
  from Inr p have b: "beforeAsking cfg keywordsToPatch armas hasher st = Inr (st2, hashes, toAsk)"
    by simp
  from beforeAsking_Inr [OF b] have "memoryFile st2 = memoryFile st" by auto
  with learn_memoryFile [OF l] have m: "memoryFile st3 = memoryFile st" by simp
  from assms l m show ?thesis
    by (auto simp: patch_asked [OF b] saveMemories_def split: option.splits)
qed




subsection \<open>The scenarios of the specification\<close>

text \<open>
  Two components, h1 remembered as revealing and h2 as not: the keyword is skipped, no
  question, no tag.
\<close>

lemma scenario_skip:
  "fst (patch oneKeyword [''SOS_Revealing''] [cuirass, skirt] allFiles yesThenCancel knownBoth)
     = NothingToAsk \<and>
   added (snd (patch oneKeyword [''SOS_Revealing''] [cuirass, skirt] allFiles yesThenCancel
          knownBoth)) = []"
  by (simp add: run_defs example_defs)

text \<open>
  The same with nothing remembered for h2: one question; the answer No goes to h2, the
  one relevant hash not known as revealing, and the record is not tagged.
\<close>

lemma scenario_attribute:
  "fst (patch oneKeyword [''SOS_Revealing''] [cuirass, skirt] allFiles (\<lambda>keyword. ChoiceNo)
          knownCuirass) = Saved \<and>
   added (snd (patch oneKeyword [''SOS_Revealing''] [cuirass, skirt] allFiles
          (\<lambda>keyword. ChoiceNo) knownCuirass)) = [] \<and>
   remembered (taggednifs (snd (patch oneKeyword [''SOS_Revealing''] [cuirass, skirt] allFiles
          (\<lambda>keyword. ChoiceNo) knownCuirass))) ''h2'' ''SOS_Revealing'' = Some No \<and>
   remembered (memoryFile (snd (patch oneKeyword [''SOS_Revealing''] [cuirass, skirt] allFiles
          (\<lambda>keyword. ChoiceNo) knownCuirass))) ''h1'' ''SOS_Revealing'' = Some Yes"
  by (simp add: run_defs example_defs)

end
